theory Spec2Isabelle
  imports Main "HOL-Library.Word"
begin

section \<open>Python values\<close>

text \<open>
  A Python \<open>str\<close> is a sequence of Unicode code points, so it is modelled as a list of
  natural numbers; \<open>str\<close> turns an ASCII literal of the source into that form. The values
  that travel through the tool arguments and through the service's replies are JSON
  values: \<open>None\<close>, \<open>bool\<close>, \<open>int\<close>, \<open>float\<close> (kept as its 64-bit pattern, no
  arithmetic is done on it), \<open>str\<close>, \<open>list\<close> and \<open>dict\<close>. A \<open>dict\<close> is an association
  list in insertion order.
\<close>

type_synonym pystr = "nat list"

definition str :: "string \<Rightarrow> pystr" where
  "str s = map of_char s"

datatype json =
    JNull
  | JBool bool
  | JInt int
  | JFloat "64 word"
  | JStr pystr
  | JList "json list"
  | JDict "(pystr \<times> json) list"

datatype py_error = AttributeError | TypeError

definition bind_result :: "py_error + 'a \<Rightarrow> ('a \<Rightarrow> py_error + 'b) \<Rightarrow> py_error + 'b" where
  "bind_result m f = (case m of Inl e \<Rightarrow> Inl e | Inr v \<Rightarrow> f v)"

text \<open>\<open>d.get(k, dflt)\<close> on a dict, and the same method call on an arbitrary value, which
  raises \<open>AttributeError\<close> unless the value is a dict.\<close>

definition dict_get :: "(pystr \<times> json) list \<Rightarrow> pystr \<Rightarrow> json \<Rightarrow> json" where
  "dict_get d k dflt = (case map_of d k of None \<Rightarrow> dflt | Some v \<Rightarrow> v)"

fun py_get :: "json \<Rightarrow> pystr \<Rightarrow> json \<Rightarrow> py_error + json" where
  "py_get (JDict d) k dflt = Inr (dict_get d k dflt)"
| "py_get _ k dflt = Inl AttributeError"

text \<open>\<open>d[k] = v\<close>: an existing key keeps its position, a new key goes to the end.\<close>

fun dict_set :: "(pystr \<times> json) list \<Rightarrow> pystr \<Rightarrow> json \<Rightarrow> (pystr \<times> json) list" where
  "dict_set [] k v = [(k, v)]"
| "dict_set ((k', v') # d) k v = (if k' = k then (k, v) # d else (k', v') # dict_set d k v)"

section \<open>Property coercion of \<open>notion_create_database_item\<close>\<close>

text \<open>
  \<^verbatim>\<open>
  notion_props = {}
  for key, value in props.items():
      if isinstance(value, str):
          if not notion_props:
              notion_props[key] = {"title": [{"text": {"content": value}}]}
          else:
              notion_props[key] = {"rich_text": [{"text": {"content": value}}]}
      elif isinstance(value, bool):
          notion_props[key] = {"checkbox": value}
      elif isinstance(value, (int, float)):
          notion_props[key] = {"number": value}
  \<close>
\<close>

definition title_value :: "pystr \<Rightarrow> json" where
  "title_value v = JDict [(str ''title'', JList [JDict [(str ''text'', JDict [(str ''content'', JStr v)])]])]"

definition rich_text_value :: "pystr \<Rightarrow> json" where
  "rich_text_value v = JDict [(str ''rich_text'', JList [JDict [(str ''text'', JDict [(str ''content'', JStr v)])]])]"

definition checkbox_value :: "bool \<Rightarrow> json" where
  "checkbox_value v = JDict [(str ''checkbox'', JBool v)]"

definition number_value :: "json \<Rightarrow> json" where
  "number_value v = JDict [(str ''number'', v)]"

fun notion_props_step :: "(pystr \<times> json) list \<Rightarrow> pystr \<times> json \<Rightarrow> (pystr \<times> json) list" where
  "notion_props_step notion_props (key, JStr s) =
     (if notion_props = [] then dict_set notion_props key (title_value s)
      else dict_set notion_props key (rich_text_value s))"
| "notion_props_step notion_props (key, JBool b) = dict_set notion_props key (checkbox_value b)"
| "notion_props_step notion_props (key, JInt i) = dict_set notion_props key (number_value (JInt i))"
| "notion_props_step notion_props (key, JFloat f) = dict_set notion_props key (number_value (JFloat f))"
| "notion_props_step notion_props (key, JNull) = notion_props"
| "notion_props_step notion_props (key, JList xs) = notion_props"
| "notion_props_step notion_props (key, JDict d) = notion_props"

fun notion_props_loop :: "(pystr \<times> json) list \<Rightarrow> (pystr \<times> json) list \<Rightarrow> (pystr \<times> json) list" where
  "notion_props_loop [] notion_props = notion_props"
| "notion_props_loop (item # items) notion_props =
     notion_props_loop items (notion_props_step notion_props item)"

definition build_notion_props :: "(pystr \<times> json) list \<Rightarrow> (pystr \<times> json) list" where
  "build_notion_props props = notion_props_loop props []"

text \<open>The values the coercion has a branch for, and what a value becomes when it is the
  first property emitted and when it is a later one.\<close>

fun coercible :: "json \<Rightarrow> bool" where
  "coercible (JStr s) = True"
| "coercible (JBool b) = True"
| "coercible (JInt i) = True"
| "coercible (JFloat f) = True"
| "coercible _ = False"

fun later_value :: "json \<Rightarrow> json" where
  "later_value (JStr s) = rich_text_value s"
| "later_value (JBool b) = checkbox_value b"
| "later_value v = number_value v"

fun first_value :: "json \<Rightarrow> json" where
  "first_value (JStr s) = title_value s"
| "first_value v = later_value v"

definition emitted :: "(pystr \<times> json) list \<Rightarrow> (pystr \<times> json) list" where
  "emitted props = filter (\<lambda>item. coercible (snd item)) props"

definition coerced :: "(pystr \<times> json) list \<Rightarrow> (pystr \<times> json) list" where
  "coerced items =
     (case items of [] \<Rightarrow> []
      | (key, value) # rest \<Rightarrow> (key, first_value value) # map (\<lambda>(k, v). (k, later_value v)) rest)"

section \<open>Markdown to blocks\<close>

text \<open>
  \<open>str.rstrip()\<close> removes the trailing code points for which \<open>str.isspace()\<close> holds:
  U+0009..U+000D, U+001C..U+0020, U+0085, U+00A0, U+1680, U+2000..U+200A, U+2028, U+2029,
  U+202F, U+205F and U+3000. \<open>str.split('\n')\<close> cuts at every code point 10 and always
  returns at least one piece.
\<close>

definition py_isspace :: "nat \<Rightarrow> bool" where
  "py_isspace c \<longleftrightarrow>
     (9 \<le> c \<and> c \<le> 13) \<or> (28 \<le> c \<and> c \<le> 32) \<or> c = 133 \<or> c = 160 \<or> c = 5760 \<or>
     (8192 \<le> c \<and> c \<le> 8202) \<or> c = 8232 \<or> c = 8233 \<or> c = 8239 \<or> c = 8287 \<or> c = 12288"

definition rstrip :: "pystr \<Rightarrow> pystr" where
  "rstrip s = rev (dropWhile py_isspace (rev s))"

fun startswith :: "pystr \<Rightarrow> pystr \<Rightarrow> bool" where
  "startswith s [] = True"
| "startswith [] (p # ps) = False"
| "startswith (c # cs) (p # ps) = (c = p \<and> startswith cs ps)"

fun split_from :: "nat \<Rightarrow> pystr \<Rightarrow> pystr \<Rightarrow> pystr list" where
  "split_from sep cur [] = [cur]"
| "split_from sep cur (c # cs) =
     (if c = sep then cur # split_from sep [] cs else split_from sep (cur @ [c]) cs)"

definition py_split :: "pystr \<Rightarrow> nat \<Rightarrow> pystr list" where
  "py_split s sep = split_from sep [] s"

fun py_join :: "pystr \<Rightarrow> pystr list \<Rightarrow> pystr" where
  "py_join sep [] = []"
| "py_join sep [x] = x"
| "py_join sep (x # y # ys) = x @ sep @ py_join sep (y # ys)"

text \<open>
  Every block that \<open>markdown_to_blocks\<close> appends has the same form,
  \<^verbatim>\<open>{"type": kind, kind: {"rich_text": [{"type": "text", "text": {"content": content}}]}}\<close>.
\<close>

definition text_block :: "pystr \<Rightarrow> pystr \<Rightarrow> json" where
  "text_block kind content =
     JDict [(str ''type'', JStr kind),
            (kind, JDict [(str ''rich_text'',
               JList [JDict [(str ''type'', JStr (str ''text'')),
                             (str ''text'', JDict [(str ''content'', JStr content)])]])])]"

text \<open>The body of the \<open>for line in lines\<close> loop, the loop, and the function.\<close>

definition markdown_to_blocks_step :: "json list \<Rightarrow> pystr \<Rightarrow> json list" where
  "markdown_to_blocks_step blocks l =
     (let line = rstrip l in
      if line = [] then blocks
      else if startswith line (str ''# '') then
        blocks @ [text_block (str ''heading_1'') (drop 2 line)]
      else if startswith line (str ''## '') then
        blocks @ [text_block (str ''heading_2'') (drop 3 line)]
      else if startswith line (str ''### '') then
        blocks @ [text_block (str ''heading_3'') (drop 4 line)]
      else if startswith line (str ''- '') \<or> startswith line (str ''* '') then
        blocks @ [text_block (str ''bulleted_list_item'') (drop 2 line)]
      else if startswith line (str ''```'') then blocks
      else blocks @ [text_block (str ''paragraph'') line])"

fun markdown_to_blocks_loop :: "pystr list \<Rightarrow> json list \<Rightarrow> json list" where
  "markdown_to_blocks_loop [] blocks = blocks"
| "markdown_to_blocks_loop (l # lines) blocks =
     markdown_to_blocks_loop lines (markdown_to_blocks_step blocks l)"

definition markdown_to_blocks :: "pystr \<Rightarrow> json list" where
  "markdown_to_blocks content = markdown_to_blocks_loop (py_split content 10) []"

section \<open>Blocks to markdown\<close>

text \<open>
  \<open>extract_text\<close> is \<^verbatim>\<open>''.join(t.get("plain_text", "") for t in rich_text)\<close>: the
  argument is iterated (a list gives its items, a str its characters, a dict its keys,
  anything else raises \<open>TypeError\<close>), \<open>get\<close> is called on every item, and \<open>join\<close>
  accepts the collected values only if all are strings.
\<close>

fun py_iter :: "json \<Rightarrow> py_error + json list" where
  "py_iter (JList xs) = Inr xs"
| "py_iter (JStr s) = Inr (map (\<lambda>c. JStr [c]) s)"
| "py_iter (JDict d) = Inr (map (\<lambda>item. JStr (fst item)) d)"
| "py_iter _ = Inl TypeError"

fun plain_texts :: "json list \<Rightarrow> py_error + json list" where
  "plain_texts [] = Inr []"
| "plain_texts (t # ts) =
     bind_result (py_get t (str ''plain_text'') (JStr []))
       (\<lambda>v. bind_result (plain_texts ts) (\<lambda>vs. Inr (v # vs)))"

fun join_empty :: "json list \<Rightarrow> py_error + pystr" where
  "join_empty [] = Inr []"
| "join_empty (JStr s # vs) = bind_result (join_empty vs) (\<lambda>r. Inr (s @ r))"
| "join_empty (_ # vs) = Inl TypeError"

definition extract_text :: "json \<Rightarrow> py_error + pystr" where
  "extract_text rich_text =
     bind_result (py_iter rich_text) (\<lambda>ts. bind_result (plain_texts ts) join_empty)"

text \<open>\<^verbatim>\<open>extract_text(block.get(kind, {}).get("rich_text", []))\<close>\<close>

definition block_text :: "json \<Rightarrow> pystr \<Rightarrow> py_error + pystr" where
  "block_text block kind =
     bind_result (py_get block kind (JDict []))
       (\<lambda>sub. bind_result (py_get sub (str ''rich_text'') (JList [])) extract_text)"

text \<open>\<^verbatim>\<open>block.get(kind, {}).get(field, dflt)\<close>\<close>

definition block_field :: "json \<Rightarrow> pystr \<Rightarrow> pystr \<Rightarrow> json \<Rightarrow> py_error + json" where
  "block_field block kind field dflt =
     bind_result (py_get block kind (JDict [])) (\<lambda>sub. py_get sub field dflt)"

text \<open>
  An f-string field \<open>{lang}\<close> inserts a string as it is; for any other value it inserts
  what Python's \<open>str()\<close> makes of it, which is a parameter here.
\<close>

definition py_format :: "(json \<Rightarrow> pystr) \<Rightarrow> json \<Rightarrow> pystr" where
  "py_format fmt v = (case v of JStr s \<Rightarrow> s | _ \<Rightarrow> fmt v)"

text \<open>Truth value of a Python object; the two float zeros are the patterns 0 and \<open>2^63\<close>.\<close>

fun py_truthy :: "json \<Rightarrow> bool" where
  "py_truthy JNull = False"
| "py_truthy (JBool b) = b"
| "py_truthy (JInt i) = (i \<noteq> 0)"
| "py_truthy (JFloat w) = (w \<noteq> 0 \<and> w \<noteq> push_bit 63 1)"
| "py_truthy (JStr s) = (s \<noteq> [])"
| "py_truthy (JList xs) = (xs \<noteq> [])"
| "py_truthy (JDict d) = (d \<noteq> [])"

definition blocks_to_markdown_step :: "(json \<Rightarrow> pystr) \<Rightarrow> pystr list \<Rightarrow> json \<Rightarrow> py_error + pystr list" where
  "blocks_to_markdown_step fmt lines block =
     bind_result (py_get block (str ''type'') (JStr [])) (\<lambda>block_type.
       if block_type = JStr (str ''paragraph'') then
         bind_result (block_text block (str ''paragraph'')) (\<lambda>text. Inr (lines @ [text]))
       else if block_type = JStr (str ''heading_1'') then
         bind_result (block_text block (str ''heading_1'')) (\<lambda>text. Inr (lines @ [str ''# '' @ text]))
       else if block_type = JStr (str ''heading_2'') then
         bind_result (block_text block (str ''heading_2'')) (\<lambda>text. Inr (lines @ [str ''## '' @ text]))
       else if block_type = JStr (str ''heading_3'') then
         bind_result (block_text block (str ''heading_3'')) (\<lambda>text. Inr (lines @ [str ''### '' @ text]))
       else if block_type = JStr (str ''bulleted_list_item'') then
         bind_result (block_text block (str ''bulleted_list_item''))
           (\<lambda>text. Inr (lines @ [str ''- '' @ text]))
       else if block_type = JStr (str ''numbered_list_item'') then
         bind_result (block_text block (str ''numbered_list_item''))
           (\<lambda>text. Inr (lines @ [str ''1. '' @ text]))
       else if block_type = JStr (str ''code'') then
         bind_result (block_text block (str ''code'')) (\<lambda>text.
         bind_result (block_field block (str ''code'') (str ''language'') (JStr [])) (\<lambda>lang.
           Inr (lines @ [str ''```'' @ py_format fmt lang @ [10] @ text @ [10] @ str ''```''])))
       else if block_type = JStr (str ''quote'') then
         bind_result (block_text block (str ''quote'')) (\<lambda>text. Inr (lines @ [str ''> '' @ text]))
       else if block_type = JStr (str ''to_do'') then
         bind_result (block_text block (str ''to_do'')) (\<lambda>text.
         bind_result (block_field block (str ''to_do'') (str ''checked'') (JBool False)) (\<lambda>checked.
           Inr (lines @ [str ''- ['' @ (if py_truthy checked then str ''x'' else str '' '')
                           @ str ''] '' @ text])))
       else Inr lines)"

fun blocks_to_markdown_loop :: "(json \<Rightarrow> pystr) \<Rightarrow> json list \<Rightarrow> pystr list \<Rightarrow> py_error + pystr list" where
  "blocks_to_markdown_loop fmt [] lines = Inr lines"
| "blocks_to_markdown_loop fmt (block # blocks) lines =
     bind_result (blocks_to_markdown_step fmt lines block) (blocks_to_markdown_loop fmt blocks)"

definition blocks_to_markdown :: "(json \<Rightarrow> pystr) \<Rightarrow> json list \<Rightarrow> py_error + pystr" where
  "blocks_to_markdown fmt blocks =
     bind_result (blocks_to_markdown_loop fmt blocks []) (\<lambda>lines. Inr (py_join [10] lines))"

section \<open>Title extraction\<close>

text \<open>
  \<^verbatim>\<open>
  for key, value in properties.items():
      if value.get("type") == "title":
          return extract_text(value.get("title", []))
  return "Untitled"
  \<close>
\<close>

fun extract_title :: "(pystr \<times> json) list \<Rightarrow> py_error + pystr" where
  "extract_title [] = Inr (str ''Untitled'')"
| "extract_title ((key, value) # properties) =
     bind_result (py_get value (str ''type'') JNull) (\<lambda>t.
       if t = JStr (str ''title'') then
         bind_result (py_get value (str ''title'') (JList [])) extract_text
       else extract_title properties)"

section \<open>The line classification in the order the specification gives\<close>

text \<open>
  The specification lists the tests as: blank, \<open>"### "\<close>, \<open>"## "\<close>, \<open>"# "\<close>, \<open>"- "\<close> or
  \<open>"* "\<close>, the fence, and otherwise a paragraph. \<open>classify_spec\<close> follows that order and
  returns the kind and the content of the block, if the line gives one.
\<close>

definition classify_spec :: "pystr \<Rightarrow> (pystr \<times> pystr) option" where
  "classify_spec l =
     (let line = rstrip l in
      if line = [] then None
      else if startswith line (str ''### '') then Some (str ''heading_3'', drop 4 line)
      else if startswith line (str ''## '') then Some (str ''heading_2'', drop 3 line)
      else if startswith line (str ''# '') then Some (str ''heading_1'', drop 2 line)
      else if startswith line (str ''- '') \<or> startswith line (str ''* '') then
        Some (str ''bulleted_list_item'', drop 2 line)
      else if startswith line (str ''```'') then None
      else Some (str ''paragraph'', line))"

definition line_blocks_spec :: "pystr \<Rightarrow> json list" where
  "line_blocks_spec l =
     (case classify_spec l of None \<Rightarrow> [] | Some (kind, content) \<Rightarrow> [text_block kind content])"

definition markup_to_blocks_spec :: "pystr \<Rightarrow> json list" where
  "markup_to_blocks_spec doc = concat (map line_blocks_spec (py_split doc 10))"

text \<open>The block types \<open>markdown_to_blocks\<close> can emit.\<close>

definition emitted_kinds :: "pystr set" where
  "emitted_kinds = {str ''heading_1'', str ''heading_2'', str ''heading_3'',
                    str ''bulleted_list_item'', str ''paragraph''}"

section \<open>The documented shape of the service's records\<close>

text \<open>
  The records \<open>blocks_to_markdown\<close> and \<open>extract_title\<close> receive come from the service.
  Every field is optional; a field that is present has the documented type: a rich-text
  run is a record whose \<open>plain_text\<close> is a string, the sub-object named by a block's type
  is a record whose \<open>rich_text\<close> is a list of runs, a block is a record, a property
  value is a record.
\<close>

definition rendered_kinds :: "pystr list" where
  "rendered_kinds =
     [str ''paragraph'', str ''heading_1'', str ''heading_2'', str ''heading_3'',
      str ''bulleted_list_item'', str ''numbered_list_item'', str ''code'', str ''quote'',
      str ''to_do'']"

fun is_record :: "json \<Rightarrow> bool" where
  "is_record (JDict d) = True"
| "is_record _ = False"

fun run_shape :: "json \<Rightarrow> bool" where
  "run_shape (JDict r) =
     (case map_of r (str ''plain_text'') of None \<Rightarrow> True | Some (JStr s) \<Rightarrow> True | Some _ \<Rightarrow> False)"
| "run_shape _ = False"

fun body_shape :: "json \<Rightarrow> bool" where
  "body_shape (JDict body) =
     (case map_of body (str ''rich_text'') of
        None \<Rightarrow> True
      | Some (JList ts) \<Rightarrow> list_all run_shape ts
      | Some _ \<Rightarrow> False)"
| "body_shape _ = False"

fun block_shape :: "json \<Rightarrow> bool" where
  "block_shape (JDict d) =
     (case dict_get d (str ''type'') (JStr []) of
        JStr kind \<Rightarrow>
          (case map_of d kind of
             None \<Rightarrow> True
           | Some sub \<Rightarrow> kind \<in> set rendered_kinds \<longrightarrow> body_shape sub)
      | _ \<Rightarrow> True)"
| "block_shape _ = False"

text \<open>The plain text of a run, and the test \<open>value.get("type") == "title"\<close> on a property
  value.\<close>

fun run_plain_text :: "json \<Rightarrow> pystr" where
  "run_plain_text (JDict r) = (case dict_get r (str ''plain_text'') (JStr []) of JStr s \<Rightarrow> s | _ \<Rightarrow> [])"
| "run_plain_text _ = []"

fun is_title_property :: "json \<Rightarrow> bool" where
  "is_title_property (JDict d) = (dict_get d (str ''type'') JNull = JStr (str ''title''))"
| "is_title_property _ = False"

text \<open>
  Writing the default of every missing optional field into a block: \<open>type\<close> as the empty
  string, the sub-object named by the type as the empty record, and in it \<open>rich_text\<close> as
  the empty list, \<open>language\<close> as the empty string, \<open>checked\<close> as false, and in every run
  \<open>plain_text\<close> as the empty string. \<open>setdefault\<close> is Python's \<open>dict.setdefault\<close>.
\<close>

definition setdefault :: "(pystr \<times> json) list \<Rightarrow> pystr \<Rightarrow> json \<Rightarrow> (pystr \<times> json) list" where
  "setdefault d k v = (case map_of d k of None \<Rightarrow> d @ [(k, v)] | Some x \<Rightarrow> d)"

definition update_entry :: "pystr \<Rightarrow> (json \<Rightarrow> json) \<Rightarrow> (pystr \<times> json) list \<Rightarrow> (pystr \<times> json) list" where
  "update_entry k f d = map (\<lambda>item. if fst item = k then (fst item, f (snd item)) else item) d"

fun run_with_defaults :: "json \<Rightarrow> json" where
  "run_with_defaults (JDict r) = JDict (setdefault r (str ''plain_text'') (JStr []))"
| "run_with_defaults t = t"

fun rich_text_with_defaults :: "json \<Rightarrow> json" where
  "rich_text_with_defaults (JList ts) = JList (map run_with_defaults ts)"
| "rich_text_with_defaults v = v"

fun body_with_defaults :: "json \<Rightarrow> json" where
  "body_with_defaults (JDict body) =
     JDict (setdefault (setdefault (setdefault
       (update_entry (str ''rich_text'') rich_text_with_defaults body)
         (str ''rich_text'') (JList [])) (str ''language'') (JStr [])) (str ''checked'') (JBool False))"
| "body_with_defaults v = v"

fun block_with_defaults :: "json \<Rightarrow> json" where
  "block_with_defaults (JDict d) =
     (let d' = setdefault d (str ''type'') (JStr []) in
      case dict_get d' (str ''type'') (JStr []) of
        JStr kind \<Rightarrow>
          if kind \<in> set rendered_kinds then
            JDict (update_entry kind body_with_defaults (setdefault d' kind (JDict [])))
          else JDict d'
      | _ \<Rightarrow> JDict d')"
| "block_with_defaults b = b"

section \<open>Blocks as the service hands them back\<close>

text \<open>
  \<open>markdown_to_blocks\<close> writes the text of a run under \<open>text.content\<close>, the form in which
  blocks are sent; \<open>blocks_to_markdown\<close> reads \<open>plain_text\<close>, the form in which the
  service returns them. A returned block \<open>exposes\<close> an emitted block when it has the same
  type and \<open>extract_text\<close> reads the emitted content from its sub-object of that type.
  \<open>rendered_line\<close> is the line \<open>blocks_to_markdown\<close> makes of such a block.
\<close>

inductive exposes :: "json \<Rightarrow> json \<Rightarrow> bool" where
  "dict_get r (str ''type'') (JStr []) = JStr kind \<Longrightarrow> block_text (JDict r) kind = Inr content \<Longrightarrow>
   exposes (JDict r) (text_block kind content)"

definition line_prefix :: "pystr \<Rightarrow> pystr" where
  "line_prefix kind =
     (if kind = str ''heading_1'' then str ''# ''
      else if kind = str ''heading_2'' then str ''## ''
      else if kind = str ''heading_3'' then str ''### ''
      else if kind = str ''bulleted_list_item'' then str ''- ''
      else [])"

definition rendered_line :: "pystr \<times> pystr \<Rightarrow> pystr" where
  "rendered_line item = line_prefix (fst item) @ snd item"

section \<open>Facts about the property coercion\<close>

lemma dict_set_new: "k \<notin> fst ` set d \<Longrightarrow> dict_set d k v = d @ [(k, v)]"
  by (induction d) auto

lemma notion_props_step_skip: "\<not> coercible v \<Longrightarrow> notion_props_step acc (k, v) = acc"
  by (cases v) simp_all

lemma notion_props_step_later:
  "coercible v \<Longrightarrow> acc \<noteq> [] \<Longrightarrow> k \<notin> fst ` set acc \<Longrightarrow>
   notion_props_step acc (k, v) = acc @ [(k, later_value v)]"
  by (cases v) (simp_all add: dict_set_new)

lemma notion_props_step_first:
  "coercible v \<Longrightarrow> notion_props_step [] (k, v) = [(k, first_value v)]"
  by (cases v) simp_all

lemma notion_props_loop_later:
  "acc \<noteq> [] \<Longrightarrow> distinct (map fst items) \<Longrightarrow> fst ` set acc \<inter> fst ` set items = {} \<Longrightarrow>
   notion_props_loop items acc = acc @ map (\<lambda>(k, v). (k, later_value v)) (emitted items)"
proof (induction items arbitrary: acc)
  case Nil
  then show ?case by (simp add: emitted_def)
next
  case (Cons item items)
  obtain k v where item: "item = (k, v)" by (cases item)
  show ?case
  proof (cases "coercible v")
    case False
    have "notion_props_loop items acc = acc @ map (\<lambda>(k, v). (k, later_value v)) (emitted items)"
      using Cons.prems by (intro Cons.IH) auto
    with False show ?thesis by (simp add: item notion_props_step_skip emitted_def)
  next
    case True
    have k: "k \<notin> fst ` set acc" using Cons.prems(3) by (auto simp: item)
    let ?acc = "acc @ [(k, later_value v)]"
    have step: "notion_props_step acc (k, v) = ?acc"
      using True Cons.prems(1) k by (rule notion_props_step_later)
    have "notion_props_loop items ?acc = ?acc @ map (\<lambda>(k, v). (k, later_value v)) (emitted items)"
      using Cons.prems by (intro Cons.IH) (auto simp: item)
    with True show ?thesis by (simp add: item step emitted_def)
  qed
qed

lemma notion_props_loop_first:
  "distinct (map fst items) \<Longrightarrow> notion_props_loop items [] = coerced (emitted items)"
proof (induction items)
  case Nil
  then show ?case by (simp add: emitted_def coerced_def)
next
  case (Cons item items)
  obtain k v where item: "item = (k, v)" by (cases item)
  show ?case
  proof (cases "coercible v")
    case False
    with Cons show ?thesis by (simp add: item notion_props_step_skip emitted_def)
  next
    case True
    have "notion_props_loop items [(k, first_value v)] =
          [(k, first_value v)] @ map (\<lambda>(k, v). (k, later_value v)) (emitted items)"
      using Cons.prems by (intro notion_props_loop_later) (auto simp: item)
    with True show ?thesis
      by (simp add: item notion_props_step_first emitted_def coerced_def)
  qed
qed

lemma notion_props_loop_append:
  "notion_props_loop (xs @ ys) acc = notion_props_loop ys (notion_props_loop xs acc)"
  by (induction xs arbitrary: acc) simp_all

lemma fst_coerced: "map fst (coerced items) = map fst items"
  by (cases items) (auto simp: coerced_def)

section \<open>The property coercion: claims\<close>

text \<open>
  C1 (as amended). For a properties map with distinct keys, the keys whose values are
  strings, booleans, ints or floats are emitted in insertion order. A string is wrapped
  as the title exactly when nothing has been emitted before it; every other string
  becomes a rich_text property, a boolean a checkbox and an int or float a number. Over
  \<open>{"Name": "Task A", "Done": true, "Priority": 2}\<close> this gives a title, a checkbox and a
  number, in that order.
\<close>

theorem coercion_first_emitted_is_title:
  assumes "distinct (map fst props)"
  shows "build_notion_props props = coerced (emitted props)"
  unfolding build_notion_props_def using assms by (rule notion_props_loop_first)

theorem coercion_first_emitted_is_title_witness:
  "build_notion_props
     [(str ''Name'', JStr (str ''Task A'')), (str ''Done'', JBool True), (str ''Priority'', JInt 2)]
   = [(str ''Name'', title_value (str ''Task A'')), (str ''Done'', checkbox_value True),
      (str ''Priority'', number_value (JInt 2))]"
proof -
  let ?props = "[(str ''Name'', JStr (str ''Task A'')), (str ''Done'', JBool True),
                 (str ''Priority'', JInt 2)]"
  have d: "distinct (map fst ?props)" by (simp add: str_def)
  show ?thesis
    using coercion_first_emitted_is_title [OF d] by (simp add: coerced_def emitted_def)
qed

text \<open>
  C1 as stated fails: a first key with a boolean value becomes a checkbox and the string
  after it a rich_text property, so no title is produced; and a string that follows only
  omitted keys becomes the title although it is not the first key.
\<close>

theorem coercion_first_key_counterexample:
  "build_notion_props [(str ''Done'', JBool True), (str ''Name'', JStr (str ''Task A''))]
     = [(str ''Done'', checkbox_value True), (str ''Name'', rich_text_value (str ''Task A''))]
   \<and> build_notion_props [(str ''Ref'', JNull), (str ''Name'', JStr (str ''Task A''))]
     = [(str ''Name'', title_value (str ''Task A''))]"
  by (simp add: build_notion_props_def str_def)

text \<open>
  C10. A key whose value is not a string, boolean, int or float (null, a list, a nested
  object) leaves the constructed map as it was: the result is the one obtained without
  that key, and the key is not in it.
\<close>

theorem other_values_are_omitted:
  assumes "\<not> coercible v"
  shows "build_notion_props (pre @ (k, v) # post) = build_notion_props (pre @ post)
       \<and> (distinct (map fst (pre @ (k, v) # post)) \<longrightarrow>
            k \<notin> fst ` set (build_notion_props (pre @ (k, v) # post)))"
proof (intro conjI impI)
  show same: "build_notion_props (pre @ (k, v) # post) = build_notion_props (pre @ post)"
    using assms by (simp add: build_notion_props_def notion_props_loop_append notion_props_step_skip)
  assume d: "distinct (map fst (pre @ (k, v) # post))"
  then have d': "distinct (map fst (pre @ post))" by simp
  have "map fst (build_notion_props (pre @ post)) = map fst (emitted (pre @ post))"
    using notion_props_loop_first [OF d'] by (simp add: build_notion_props_def fst_coerced)
  then have "fst ` set (build_notion_props (pre @ post)) \<subseteq> fst ` set (pre @ post)"
    by (metis (no_types, lifting) emitted_def filter_is_subset image_mono set_map)
  moreover have "k \<notin> fst ` set (pre @ post)" using d by auto
  ultimately show "k \<notin> fst ` set (build_notion_props (pre @ (k, v) # post))"
    using same by auto
qed

theorem other_values_are_omitted_witness:
  "build_notion_props
     [(str ''Name'', JStr (str ''Task A'')), (str ''Tags'', JList [JStr (str ''x'')]),
      (str ''Done'', JBool True)]
   = build_notion_props [(str ''Name'', JStr (str ''Task A'')), (str ''Done'', JBool True)]
   \<and> str ''Tags'' \<notin> fst ` set (build_notion_props
     [(str ''Name'', JStr (str ''Task A'')), (str ''Tags'', JList [JStr (str ''x'')]),
      (str ''Done'', JBool True)])"
proof -
  have c: "\<not> coercible (JList [JStr (str ''x'')])" by simp
  show ?thesis
    using other_values_are_omitted [OF c, of "[(str ''Name'', JStr (str ''Task A''))]" "str ''Tags''"
        "[(str ''Done'', JBool True)]"]
    by (simp add: str_def build_notion_props_def)
qed

section \<open>Facts about strings and \<open>markdown_to_blocks\<close>\<close>

lemma str_inj: "str a = str b \<longleftrightarrow> a = b"
  unfolding str_def by (simp add: inj_map_eq_map inj_of_char)

lemma startswith_append: "startswith s p \<longleftrightarrow> (\<exists>r. s = p @ r)"
  by (induction s p rule: startswith.induct) auto

lemma startswith_take: "startswith s p \<longleftrightarrow> take (length p) s = p"
  by (induction s p rule: startswith.induct) auto

lemma h1_not_h2: "startswith s (str ''# '') \<Longrightarrow> \<not> startswith s (str ''## '')"
  by (auto simp: startswith_append str_def)

lemma h1_not_h3: "startswith s (str ''# '') \<Longrightarrow> \<not> startswith s (str ''### '')"
  by (auto simp: startswith_append str_def)

lemma h2_not_h3: "startswith s (str ''## '') \<Longrightarrow> \<not> startswith s (str ''### '')"
  by (auto simp: startswith_append str_def)

lemma step_classify:
  "markdown_to_blocks_step blocks l = blocks @ line_blocks_spec l"
  unfolding markdown_to_blocks_step_def line_blocks_spec_def classify_spec_def Let_def
  using h1_not_h2 [of "rstrip l"] h1_not_h3 [of "rstrip l"] h2_not_h3 [of "rstrip l"]
  by auto

lemma loop_concat:
  "markdown_to_blocks_loop ls acc = acc @ concat (map line_blocks_spec ls)"
  by (induction ls arbitrary: acc) (simp_all add: step_classify)

lemma rstrip_Nil_iff: "rstrip s = [] \<longleftrightarrow> (\<forall>c \<in> set s. py_isspace c)"
  by (auto simp: rstrip_def dropWhile_eq_Nil_conv)

lemma rstrip_last: "rstrip s \<noteq> [] \<Longrightarrow> \<not> py_isspace (last (rstrip s))"
  unfolding rstrip_def by (metis (full_types) Nil_is_rev_conv hd_dropWhile last_rev rev_rev_ident)

lemma rstrip_fixed: "s \<noteq> [] \<Longrightarrow> \<not> py_isspace (last s) \<Longrightarrow> rstrip s = s"
  unfolding rstrip_def by (cases s rule: rev_cases) auto

lemma rstrip_idem: "rstrip (rstrip s) = rstrip s"
proof (cases "rstrip s = []")
  case True
  then show ?thesis by (simp add: rstrip_def)
next
  case False
  then show ?thesis by (simp add: rstrip_fixed rstrip_last)
qed

lemma set_rstrip: "set (rstrip s) \<subseteq> set s"
  unfolding rstrip_def by (metis set_dropWhileD set_rev subsetI)

lemma rstrip_prefix: "\<exists>w. s = rstrip s @ w"
  unfolding rstrip_def
  by (metis append_take_drop_id rev_append rev_rev_ident takeWhile_dropWhile_id)

lemma startswith_rstrip: "startswith (rstrip l) p \<Longrightarrow> startswith l p"
  using rstrip_prefix [of l] by (auto simp: startswith_append)

lemma split_from_no_sep:
  "sep \<notin> set l \<Longrightarrow> split_from sep cur (l @ sep # rest) = (cur @ l) # split_from sep [] rest"
  by (induction l arbitrary: cur) auto

lemma split_from_last: "sep \<notin> set l \<Longrightarrow> split_from sep cur l = [cur @ l]"
  by (induction l arbitrary: cur) auto

lemma split_join:
  "ls \<noteq> [] \<Longrightarrow> \<forall>l \<in> set ls. sep \<notin> set l \<Longrightarrow> py_split (py_join [sep] ls) sep = ls"
proof (induction ls)
  case Nil
  then show ?case by simp
next
  case (Cons x xs)
  show ?case
  proof (cases xs)
    case Nil
    with Cons.prems show ?thesis by (simp add: py_split_def split_from_last)
  next
    case (Cons y ys)
    with Cons.prems Cons.IH show ?thesis
      by (simp add: py_split_def split_from_no_sep)
  qed
qed

lemma split_from_sep_free:
  "sep \<notin> set cur \<Longrightarrow> \<forall>l \<in> set (split_from sep cur s). sep \<notin> set l"
proof (induction s arbitrary: cur)
  case Nil
  then show ?case by simp
next
  case (Cons c cs)
  have a: "\<forall>l \<in> set (split_from sep [] cs). sep \<notin> set l"
    by (rule Cons.IH) simp
  have b: "c \<noteq> sep \<Longrightarrow> \<forall>l \<in> set (split_from sep (cur @ [c]) cs). sep \<notin> set l"
    using Cons.prems by (intro Cons.IH) simp
  show ?case using a b Cons.prems by simp
qed

lemma split_sep_free: "l \<in> set (py_split s sep) \<Longrightarrow> sep \<notin> set l"
  unfolding py_split_def using split_from_sep_free [of sep "[]" s] by simp

lemma loop_nil: "markdown_to_blocks_loop ls [] = concat (map line_blocks_spec ls)"
  by (simp add: loop_concat)

lemma markdown_to_blocks_spec: "markdown_to_blocks doc = concat (map line_blocks_spec (py_split doc 10))"
  by (simp add: markdown_to_blocks_def loop_nil)

lemma blank_line_blocks: "rstrip l = [] \<Longrightarrow> line_blocks_spec l = []"
  by (simp add: line_blocks_spec_def classify_spec_def)

lemma fence_line_blocks: "startswith (rstrip l) (str ''```'') \<Longrightarrow> line_blocks_spec l = []"
  by (auto simp: line_blocks_spec_def classify_spec_def startswith_append str_def)

lemma paragraph_line_blocks:
  "rstrip l \<noteq> [] \<Longrightarrow> \<not> startswith (rstrip l) (str ''# '') \<Longrightarrow>
   \<not> startswith (rstrip l) (str ''## '') \<Longrightarrow> \<not> startswith (rstrip l) (str ''### '') \<Longrightarrow>
   \<not> startswith (rstrip l) (str ''- '') \<Longrightarrow> \<not> startswith (rstrip l) (str ''* '') \<Longrightarrow>
   \<not> startswith (rstrip l) (str ''```'') \<Longrightarrow>
   line_blocks_spec l = [text_block (str ''paragraph'') (rstrip l)]"
  by (simp add: line_blocks_spec_def classify_spec_def)

lemma split_line_blocks:
  "py_split doc 10 = pre @ l # post \<Longrightarrow>
   markdown_to_blocks doc =
     markdown_to_blocks_loop pre [] @ line_blocks_spec l @ markdown_to_blocks_loop post []"
  by (simp add: markdown_to_blocks_spec loop_nil)

lemma py_split_Nil: "py_split [] sep = [[]]"
  by (simp add: py_split_def)

lemma rstrip_Nil: "rstrip [] = []"
  by (simp add: rstrip_def)

lemma remainder_stripped:
  assumes "startswith line p" "p \<noteq> []" "py_isspace (last p)" "line \<noteq> []" "\<not> py_isspace (last line)"
  shows "drop (length p) line \<noteq> [] \<and> \<not> py_isspace (last (drop (length p) line))"
proof -
  from assms(1) obtain r where r: "line = p @ r" by (auto simp: startswith_append)
  have "r \<noteq> []" using assms r by auto
  then show ?thesis using assms r by simp
qed

lemma classify_spec_Some:
  assumes "classify_spec l = Some (kind, content)"
  shows "kind \<in> emitted_kinds \<and> content \<noteq> [] \<and> rstrip content = content \<and> set content \<subseteq> set l"
proof -
  let ?line = "rstrip l"
  have ne: "?line \<noteq> []" using assms by (auto simp: classify_spec_def Let_def split: if_splits)
  then have last: "\<not> py_isspace (last ?line)" by (rule rstrip_last)
  have rem: "startswith ?line p \<Longrightarrow> p \<noteq> [] \<Longrightarrow> py_isspace (last p) \<Longrightarrow> length p = n \<Longrightarrow>
      drop n ?line \<noteq> [] \<and> rstrip (drop n ?line) = drop n ?line" for p n
    using remainder_stripped [of ?line p] ne last by (auto simp: rstrip_fixed)
  have sub: "set (drop n ?line) \<subseteq> set l" for n
    using set_rstrip [of l] set_drop_subset [of n ?line] by blast
  from assms consider
      (h3) "startswith ?line (str ''### '')" "kind = str ''heading_3''" "content = drop 4 ?line"
    | (h2) "startswith ?line (str ''## '')" "kind = str ''heading_2''" "content = drop 3 ?line"
    | (h1) "startswith ?line (str ''# '')" "kind = str ''heading_1''" "content = drop 2 ?line"
    | (b1) "startswith ?line (str ''- '')" "kind = str ''bulleted_list_item''" "content = drop 2 ?line"
    | (b2) "startswith ?line (str ''* '')" "kind = str ''bulleted_list_item''" "content = drop 2 ?line"
    | (p) "kind = str ''paragraph''" "content = ?line"
    by (auto simp: classify_spec_def Let_def split: if_splits)
  then show ?thesis
  proof cases
    case h3
    with rem [of "str ''### ''" 4] sub [of 4] show ?thesis
      by (simp add: emitted_kinds_def str_def py_isspace_def)
  next
    case h2
    with rem [of "str ''## ''" 3] sub [of 3] show ?thesis
      by (simp add: emitted_kinds_def str_def py_isspace_def)
  next
    case h1
    with rem [of "str ''# ''" 2] sub [of 2] show ?thesis
      by (simp add: emitted_kinds_def str_def py_isspace_def)
  next
    case b1
    with rem [of "str ''- ''" 2] sub [of 2] show ?thesis
      by (simp add: emitted_kinds_def str_def py_isspace_def)
  next
    case b2
    with rem [of "str ''* ''" 2] sub [of 2] show ?thesis
      by (simp add: emitted_kinds_def str_def py_isspace_def)
  next
    case p
    with ne last set_rstrip [of l] show ?thesis
      by (simp add: emitted_kinds_def rstrip_fixed)
  qed
qed

lemma emitted_block_form:
  assumes "b \<in> set (markdown_to_blocks doc)"
  shows "\<exists>l kind content. l \<in> set (py_split doc 10) \<and> classify_spec l = Some (kind, content)
           \<and> b = text_block kind content"
proof -
  from assms obtain l where l: "l \<in> set (py_split doc 10)" and b: "b \<in> set (line_blocks_spec l)"
    by (auto simp: markdown_to_blocks_spec)
  from b obtain kind content where "classify_spec l = Some (kind, content)" "b = text_block kind content"
    by (cases "classify_spec l") (auto simp: line_blocks_spec_def)
  with l show ?thesis by blast
qed

section \<open>\<open>markdown_to_blocks\<close>: claims\<close>

lemmas m2b_eval = markdown_to_blocks_def py_split_def str_def markdown_to_blocks_step_def
  rstrip_def py_isspace_def

lemma heading_line_blocks:
  "startswith (rstrip l) (str ''### '') \<Longrightarrow>
     line_blocks_spec l = [text_block (str ''heading_3'') (drop 4 (rstrip l))]"
  "startswith (rstrip l) (str ''## '') \<Longrightarrow>
     line_blocks_spec l = [text_block (str ''heading_2'') (drop 3 (rstrip l))]"
  "startswith (rstrip l) (str ''# '') \<Longrightarrow>
     line_blocks_spec l = [text_block (str ''heading_1'') (drop 2 (rstrip l))]"
  by (auto simp: line_blocks_spec_def classify_spec_def startswith_append str_def)

text \<open>
  C3. A line whose text, after \<open>rstrip\<close>, begins with three backticks gives no block: the
  blocks of the document are those of the lines before it followed by those of the lines
  after it, each classified on its own. \<open>markdown_to_blocks\<close> of
  \<^verbatim>\<open>"```python\nprint(1)\n```"\<close> is the single paragraph block with text \<open>print(1)\<close>.
\<close>

theorem fence_lines_emit_nothing:
  assumes "py_split doc 10 = pre @ l # post" and "startswith (rstrip l) (str ''```'')"
  shows "markdown_to_blocks doc = markdown_to_blocks_loop pre [] @ markdown_to_blocks_loop post []
       \<and> markdown_to_blocks (str ''```python\<newline>print(1)\<newline>```'')
           = [text_block (str ''paragraph'') (str ''print(1)'')]"
proof
  show "markdown_to_blocks doc = markdown_to_blocks_loop pre [] @ markdown_to_blocks_loop post []"
    using split_line_blocks [OF assms(1)] fence_line_blocks [OF assms(2)] by simp
  show "markdown_to_blocks (str ''```python\<newline>print(1)\<newline>```'')
           = [text_block (str ''paragraph'') (str ''print(1)'')]"
    by (simp add: m2b_eval)
qed

theorem fence_lines_emit_nothing_witness:
  "py_split (str ''Intro\<newline>```python\<newline>print(1)\<newline>```'') 10
     = [str ''Intro''] @ str ''```python'' # [str ''print(1)'', str ''```'']
   \<and> startswith (rstrip (str ''```python'')) (str ''```'')
   \<and> markdown_to_blocks (str ''Intro\<newline>```python\<newline>print(1)\<newline>```'')
     = markdown_to_blocks_loop [str ''Intro''] []
       @ markdown_to_blocks_loop [str ''print(1)'', str ''```''] []"
proof -
  have s: "py_split (str ''Intro\<newline>```python\<newline>print(1)\<newline>```'') 10
     = [str ''Intro''] @ str ''```python'' # [str ''print(1)'', str ''```'']"
    by (simp add: py_split_def str_def)
  have f: "startswith (rstrip (str ''```python'')) (str ''```'')"
    by (simp add: rstrip_def py_isspace_def str_def)
  show ?thesis using s f fence_lines_emit_nothing [OF s f] by simp
qed

text \<open>
  C7. \<open>markdown_to_blocks\<close> of the empty string, and of any input all of whose lines are
  blank after \<open>rstrip\<close>, is the empty list; and a blank line contributes no block: the
  blocks of the document are those of the lines before it followed by those of the lines
  after it.
\<close>

theorem blank_lines_emit_nothing:
  "markdown_to_blocks [] = []
   \<and> ((\<forall>l \<in> set (py_split doc 10). rstrip l = []) \<longrightarrow> markdown_to_blocks doc = [])
   \<and> (py_split doc 10 = pre @ l # post \<and> rstrip l = [] \<longrightarrow>
        markdown_to_blocks doc = markdown_to_blocks_loop pre [] @ markdown_to_blocks_loop post [])"
proof (intro conjI impI)
  show "markdown_to_blocks [] = []"
    by (simp add: markdown_to_blocks_spec py_split_Nil blank_line_blocks rstrip_Nil)
  show "markdown_to_blocks doc = []" if "\<forall>l \<in> set (py_split doc 10). rstrip l = []"
    using that by (simp add: markdown_to_blocks_spec blank_line_blocks)
  show "markdown_to_blocks doc = markdown_to_blocks_loop pre [] @ markdown_to_blocks_loop post []"
    if "py_split doc 10 = pre @ l # post \<and> rstrip l = []"
    using that split_line_blocks [of doc pre l post] by (simp add: blank_line_blocks)
qed

theorem blank_lines_emit_nothing_witness:
  "markdown_to_blocks (str '' \<newline>\<newline>  '') = []
   \<and> markdown_to_blocks (str ''# Title\<newline>\<newline>Body'')
     = [text_block (str ''heading_1'') (str ''Title''), text_block (str ''paragraph'') (str ''Body'')]"
proof -
  have a: "\<forall>l \<in> set (py_split (str '' \<newline>\<newline>  '') 10). rstrip l = []"
    by (simp add: py_split_def str_def rstrip_def py_isspace_def)
  have b: "py_split (str ''# Title\<newline>\<newline>Body'') 10 = [str ''# Title''] @ [] # [str ''Body''] \<and> rstrip [] = []"
    by (simp add: py_split_def str_def rstrip_def)
  have "markdown_to_blocks (str '' \<newline>\<newline>  '') = []"
    using blank_lines_emit_nothing [of "str '' \<newline>\<newline>  ''"] a by blast
  moreover have "markdown_to_blocks (str ''# Title\<newline>\<newline>Body'')
      = markdown_to_blocks_loop [str ''# Title''] [] @ markdown_to_blocks_loop [str ''Body''] []"
    using blank_lines_emit_nothing [of "str ''# Title\<newline>\<newline>Body''" "[str ''# Title'']" "[]" "[str ''Body'']"] b
    by blast
  ultimately show ?thesis
    by (simp add: str_def markdown_to_blocks_step_def rstrip_def py_isspace_def)
qed

text \<open>
  C8. A line that is not blank and whose stripped text begins with none of \<open>"# "\<close>,
  \<open>"## "\<close>, \<open>"### "\<close>, \<open>"- "\<close>, \<open>"* "\<close> and the fence gives exactly one block, a
  paragraph whose single run is the stripped line. (By \<open>startswith_rstrip\<close> a prefix of
  the stripped line is a prefix of the line, so a line that begins with none of them
  has a stripped text that begins with none of them.)
\<close>

theorem unprefixed_line_is_paragraph:
  assumes "py_split doc 10 = pre @ l # post"
    and "rstrip l \<noteq> []"
    and "\<not> startswith (rstrip l) (str ''# '')" and "\<not> startswith (rstrip l) (str ''## '')"
    and "\<not> startswith (rstrip l) (str ''### '')" and "\<not> startswith (rstrip l) (str ''- '')"
    and "\<not> startswith (rstrip l) (str ''* '')" and "\<not> startswith (rstrip l) (str ''```'')"
  shows "markdown_to_blocks doc =
           markdown_to_blocks_loop pre [] @ [text_block (str ''paragraph'') (rstrip l)]
             @ markdown_to_blocks_loop post []"
  using split_line_blocks [OF assms(1)] paragraph_line_blocks [OF assms(2-8)] by simp

theorem unprefixed_line_is_paragraph_witness:
  "markdown_to_blocks (str ''- a\<newline>#Body text  \<newline>'')
     = [text_block (str ''bulleted_list_item'') (str ''a''),
        text_block (str ''paragraph'') (str ''#Body text'')]"
proof -
  let ?l = "str ''#Body text  ''"
  have s: "py_split (str ''- a\<newline>#Body text  \<newline>'') 10 = [str ''- a''] @ ?l # [[]]"
    by (simp add: py_split_def str_def)
  have r: "rstrip ?l = str ''#Body text''"
    by (simp add: rstrip_def py_isspace_def str_def)
  have n: "rstrip ?l \<noteq> []" "\<not> startswith (rstrip ?l) (str ''# '')"
    "\<not> startswith (rstrip ?l) (str ''## '')" "\<not> startswith (rstrip ?l) (str ''### '')"
    "\<not> startswith (rstrip ?l) (str ''- '')" "\<not> startswith (rstrip ?l) (str ''* '')"
    "\<not> startswith (rstrip ?l) (str ''```'')"
    unfolding r by (simp_all add: str_def)
  show ?thesis
    using unprefixed_line_is_paragraph [OF s n]
    by (simp add: r) (simp add: str_def markdown_to_blocks_step_def rstrip_def py_isspace_def)
qed

text \<open>
  C4. Testing \<open>"### "\<close> before \<open>"## "\<close> before \<open>"# "\<close>, as the specification orders the
  tests, gives the blocks that the code's order of tests gives. A line whose stripped text
  begins with \<open>"### "\<close> gives exactly one heading_3 block with the text after the prefix,
  one that begins with \<open>"## "\<close> a heading_2 block, one that begins with \<open>"# "\<close> a
  heading_1 block.
\<close>

theorem heading_precedence:
  "markdown_to_blocks doc = markup_to_blocks_spec doc
   \<and> (py_split doc 10 = pre @ l # post \<longrightarrow>
       (startswith (rstrip l) (str ''### '') \<longrightarrow>
          markdown_to_blocks doc = markdown_to_blocks_loop pre []
            @ [text_block (str ''heading_3'') (drop 4 (rstrip l))] @ markdown_to_blocks_loop post [])
     \<and> (startswith (rstrip l) (str ''## '') \<longrightarrow>
          markdown_to_blocks doc = markdown_to_blocks_loop pre []
            @ [text_block (str ''heading_2'') (drop 3 (rstrip l))] @ markdown_to_blocks_loop post [])
     \<and> (startswith (rstrip l) (str ''# '') \<longrightarrow>
          markdown_to_blocks doc = markdown_to_blocks_loop pre []
            @ [text_block (str ''heading_1'') (drop 2 (rstrip l))] @ markdown_to_blocks_loop post []))"
proof (intro conjI impI)
  show "markdown_to_blocks doc = markup_to_blocks_spec doc"
    by (simp add: markdown_to_blocks_spec markup_to_blocks_spec_def)
qed (use split_line_blocks [of doc pre l post] in \<open>simp_all add: heading_line_blocks\<close>)

theorem heading_precedence_witness:
  "markdown_to_blocks (str ''### Deep \<newline>## Mid\<newline># Top'')
     = [text_block (str ''heading_3'') (str ''Deep''), text_block (str ''heading_2'') (str ''Mid''),
        text_block (str ''heading_1'') (str ''Top'')]
   \<and> markdown_to_blocks (str ''### Deep \<newline>## Mid\<newline># Top'')
     = markup_to_blocks_spec (str ''### Deep \<newline>## Mid\<newline># Top'')"
proof -
  let ?doc = "str ''### Deep \<newline>## Mid\<newline># Top''"
  have s: "py_split ?doc 10 = [] @ str ''### Deep '' # [str ''## Mid'', str ''# Top'']"
    by (simp add: py_split_def str_def)
  have h: "startswith (rstrip (str ''### Deep '')) (str ''### '')"
    by (simp add: rstrip_def py_isspace_def str_def)
  have "markdown_to_blocks ?doc = markdown_to_blocks_loop [] []
            @ [text_block (str ''heading_3'') (drop 4 (rstrip (str ''### Deep '')))]
            @ markdown_to_blocks_loop [str ''## Mid'', str ''# Top''] []"
    using heading_precedence [of ?doc "[]" "str ''### Deep ''" "[str ''## Mid'', str ''# Top'']"] s h
    by blast
  moreover have "markdown_to_blocks ?doc = markup_to_blocks_spec ?doc"
    using heading_precedence [of ?doc] by blast
  ultimately show ?thesis
    by (simp add: str_def markdown_to_blocks_step_def rstrip_def py_isspace_def)
qed

text \<open>
  C9. Every block that \<open>markdown_to_blocks\<close> emits has the form of \<open>text_block\<close>, with
  one rich-text run; its type is heading_1, heading_2, heading_3, bulleted_list_item or
  paragraph, never code, quote, to_do or numbered_list_item; its content has no newline
  and no trailing whitespace.
\<close>

theorem emitted_blocks_invariant:
  "\<forall>b \<in> set (markdown_to_blocks doc). \<exists>kind content.
      b = text_block kind content \<and> kind \<in> emitted_kinds
      \<and> kind \<notin> {str ''code'', str ''quote'', str ''to_do'', str ''numbered_list_item''}
      \<and> 10 \<notin> set content \<and> rstrip content = content"
proof
  fix b assume "b \<in> set (markdown_to_blocks doc)"
  then obtain l kind content where l: "l \<in> set (py_split doc 10)"
    and c: "classify_spec l = Some (kind, content)" and b: "b = text_block kind content"
    using emitted_block_form by blast
  have "10 \<notin> set l" using l by (rule split_sep_free)
  moreover have "k \<in> emitted_kinds \<Longrightarrow>
     k \<notin> {str ''code'', str ''quote'', str ''to_do'', str ''numbered_list_item''}" for k
    by (auto simp: emitted_kinds_def str_inj)
  ultimately show "\<exists>kind content.
      b = text_block kind content \<and> kind \<in> emitted_kinds
      \<and> kind \<notin> {str ''code'', str ''quote'', str ''to_do'', str ''numbered_list_item''}
      \<and> 10 \<notin> set content \<and> rstrip content = content"
    using classify_spec_Some [OF c] b by blast
qed

theorem emitted_blocks_invariant_witness:
  "text_block (str ''paragraph'') (str ''Body'') \<in> set (markdown_to_blocks (str ''# Title\<newline>\<newline>Body  ''))
   \<and> (\<exists>kind content. text_block (str ''paragraph'') (str ''Body'') = text_block kind content
        \<and> kind \<in> emitted_kinds
        \<and> kind \<notin> {str ''code'', str ''quote'', str ''to_do'', str ''numbered_list_item''}
        \<and> 10 \<notin> set content \<and> rstrip content = content)"
proof -
  have m: "text_block (str ''paragraph'') (str ''Body'')
             \<in> set (markdown_to_blocks (str ''# Title\<newline>\<newline>Body  ''))"
    by (simp add: m2b_eval)
  show ?thesis
    using m emitted_blocks_invariant [THEN bspec, OF m] by blast
qed

section \<open>Facts about \<open>extract_text\<close> and \<open>extract_title\<close>\<close>

lemma bind_result_simps [simp]:
  "bind_result (Inr v) f = f v" "bind_result (Inl e) f = Inl e"
  by (simp_all add: bind_result_def)

lemma run_shape_get:
  "run_shape t \<Longrightarrow> py_get t (str ''plain_text'') (JStr []) = Inr (JStr (run_plain_text t))"
  by (cases t) (auto simp: dict_get_def split: option.splits json.splits)

lemma plain_texts_shape:
  "list_all run_shape ts \<Longrightarrow> plain_texts ts = Inr (map (\<lambda>t. JStr (run_plain_text t)) ts)"
  by (induction ts) (simp_all add: run_shape_get)

lemma join_empty_strs: "join_empty (map (\<lambda>t. JStr (f t)) ts) = Inr (concat (map f ts))"
  by (induction ts) simp_all

lemma extract_text_shape:
  "list_all run_shape ts \<Longrightarrow> extract_text (JList ts) = Inr (concat (map run_plain_text ts))"
  by (simp add: extract_text_def plain_texts_shape join_empty_strs)

lemma extract_title_skip:
  "list_all (\<lambda>item. is_record (snd item) \<and> \<not> is_title_property (snd item)) pre \<Longrightarrow>
   extract_title (pre @ rest) = extract_title rest"
proof (induction pre)
  case Nil
  then show ?case by simp
next
  case (Cons item pre)
  obtain k v where item: "item = (k, v)" by (cases item)
  from Cons.prems obtain d where v: "v = JDict d" and t: "dict_get d (str ''type'') JNull \<noteq> JStr (str ''title'')"
    by (cases v) (auto simp: item)
  from Cons show ?case by (simp add: item v t)
qed

section \<open>\<open>extract_title\<close>: claims\<close>

text \<open>
  C5. \<open>extract_title\<close> scans the entries in insertion order. When the entries before a
  title-typed property are records of another type, it returns the concatenated plain
  text of that property's runs; when every entry is a record of another type, and for the
  empty map, it returns \<open>Untitled\<close>.
\<close>

theorem first_title_property:
  "(list_all (\<lambda>item. is_record (snd item) \<and> \<not> is_title_property (snd item)) pre
      \<and> is_title_property (JDict d) \<and> dict_get d (str ''title'') (JList []) = JList runs
      \<and> list_all run_shape runs \<longrightarrow>
    extract_title (pre @ (key, JDict d) # post) = Inr (concat (map run_plain_text runs)))
   \<and> (list_all (\<lambda>item. is_record (snd item) \<and> \<not> is_title_property (snd item)) props \<longrightarrow>
    extract_title props = Inr (str ''Untitled''))"
proof (intro conjI impI)
  assume a: "list_all (\<lambda>item. is_record (snd item) \<and> \<not> is_title_property (snd item)) pre
      \<and> is_title_property (JDict d) \<and> dict_get d (str ''title'') (JList []) = JList runs
      \<and> list_all run_shape runs"
  then have "extract_title (pre @ (key, JDict d) # post) = extract_title ((key, JDict d) # post)"
    by (simp add: extract_title_skip)
  also have "\<dots> = extract_text (JList runs)" using a by simp
  also have "\<dots> = Inr (concat (map run_plain_text runs))" using a by (simp add: extract_text_shape)
  finally show "extract_title (pre @ (key, JDict d) # post) = Inr (concat (map run_plain_text runs))" .
next
  assume "list_all (\<lambda>item. is_record (snd item) \<and> \<not> is_title_property (snd item)) props"
  then show "extract_title props = Inr (str ''Untitled'')"
    using extract_title_skip [of props "[]"] by simp
qed

theorem first_title_property_witness:
  "extract_title
     [(str ''Status'', JDict [(str ''type'', JStr (str ''select''))]),
      (str ''Name'', JDict [(str ''type'', JStr (str ''title'')),
         (str ''title'', JList [JDict [(str ''plain_text'', JStr (str ''Re''))],
                                JDict [(str ''plain_text'', JStr (str ''port''))]])]),
      (str ''Other'', JDict [(str ''type'', JStr (str ''title'')),
         (str ''title'', JList [JDict [(str ''plain_text'', JStr (str ''Second''))]])])]
   = Inr (str ''Report'')
   \<and> extract_title [(str ''Status'', JDict [(str ''type'', JStr (str ''select''))])] = Inr (str ''Untitled'')
   \<and> extract_title [] = Inr (str ''Untitled'')"
proof -
  let ?pre = "[(str ''Status'', JDict [(str ''type'', JStr (str ''select''))])]"
  let ?d = "[(str ''type'', JStr (str ''title'')),
         (str ''title'', JList [JDict [(str ''plain_text'', JStr (str ''Re''))],
                                JDict [(str ''plain_text'', JStr (str ''port''))]])]"
  let ?runs = "[JDict [(str ''plain_text'', JStr (str ''Re''))],
                                JDict [(str ''plain_text'', JStr (str ''port''))]]"
  have p: "list_all (\<lambda>item. is_record (snd item) \<and> \<not> is_title_property (snd item)) ?pre"
    by (simp add: dict_get_def str_def)
  have t: "is_title_property (JDict ?d) \<and> dict_get ?d (str ''title'') (JList []) = JList ?runs
      \<and> list_all run_shape ?runs"
    by (simp add: dict_get_def str_def)
  have e: "list_all (\<lambda>item. is_record (snd item) \<and> \<not> is_title_property (snd item)) []"
    by simp
  have "extract_title (?pre @ (str ''Name'', JDict ?d) # [(str ''Other'', JDict [(str ''type'', JStr (str ''title'')),
         (str ''title'', JList [JDict [(str ''plain_text'', JStr (str ''Second''))]])])])
     = Inr (concat (map run_plain_text ?runs))"
    using first_title_property [of ?pre ?d ?runs] p t by blast
  moreover have "extract_title ?pre = Inr (str ''Untitled'')"
    using first_title_property [of _ _ _ _ _ ?pre] p by blast
  moreover have "extract_title [] = Inr (str ''Untitled'')"
    using first_title_property [of _ _ _ _ _ "[]"] e by blast
  ultimately show ?thesis by (simp add: dict_get_def str_def)
qed

section \<open>Facts about \<open>blocks_to_markdown\<close>\<close>

lemma blocks_to_markdown_loop_append:
  "blocks_to_markdown_loop fmt (xs @ ys) lines =
     bind_result (blocks_to_markdown_loop fmt xs lines) (blocks_to_markdown_loop fmt ys)"
proof (induction xs arbitrary: lines)
  case Nil
  then show ?case by simp
next
  case (Cons x xs)
  then show ?case
    by (cases "blocks_to_markdown_step fmt lines x") simp_all
qed

lemma step_unrecognized:
  "dict_get d (str ''type'') (JStr []) \<notin> JStr ` set rendered_kinds \<Longrightarrow>
   blocks_to_markdown_step fmt lines (JDict d) = Inr lines"
  by (simp add: blocks_to_markdown_step_def rendered_kinds_def)

lemma step_cong:
  assumes "py_get b' (str ''type'') (JStr []) = py_get b (str ''type'') (JStr [])"
    and "\<And>k. k \<in> set rendered_kinds \<Longrightarrow> block_text b' k = block_text b k"
    and "block_field b' (str ''code'') (str ''language'') (JStr [])
         = block_field b (str ''code'') (str ''language'') (JStr [])"
    and "block_field b' (str ''to_do'') (str ''checked'') (JBool False)
         = block_field b (str ''to_do'') (str ''checked'') (JBool False)"
  shows "blocks_to_markdown_step fmt lines b' = blocks_to_markdown_step fmt lines b"
proof -
  have "\<forall>k \<in> set rendered_kinds. block_text b' k = block_text b k"
    using assms(2) by blast
  then have t: "block_text b' (str ''paragraph'') = block_text b (str ''paragraph'')"
    "block_text b' (str ''heading_1'') = block_text b (str ''heading_1'')"
    "block_text b' (str ''heading_2'') = block_text b (str ''heading_2'')"
    "block_text b' (str ''heading_3'') = block_text b (str ''heading_3'')"
    "block_text b' (str ''bulleted_list_item'') = block_text b (str ''bulleted_list_item'')"
    "block_text b' (str ''numbered_list_item'') = block_text b (str ''numbered_list_item'')"
    "block_text b' (str ''code'') = block_text b (str ''code'')"
    "block_text b' (str ''quote'') = block_text b (str ''quote'')"
    "block_text b' (str ''to_do'') = block_text b (str ''to_do'')"
    by (simp_all add: rendered_kinds_def)
  show ?thesis
    unfolding blocks_to_markdown_step_def by (simp only: t assms(1,3,4))
qed

lemma step_total:
  assumes "py_get b (str ''type'') (JStr []) = Inr bt"
    and "\<And>k. bt = JStr k \<Longrightarrow> k \<in> set rendered_kinds \<Longrightarrow>
            (\<exists>text. block_text b k = Inr text) \<and> (\<forall>field dflt. \<exists>v. block_field b k field dflt = Inr v)"
  shows "\<exists>lines'. blocks_to_markdown_step fmt lines b = Inr lines'"
proof (cases "bt \<in> JStr ` set rendered_kinds")
  case False
  then show ?thesis
    using assms(1) by (simp add: blocks_to_markdown_step_def rendered_kinds_def)
next
  case True
  then obtain k where k: "bt = JStr k" "k \<in> set rendered_kinds" by auto
  from assms(2) [OF k] obtain tx where tx: "block_text b k = Inr tx"
    and field: "\<And>field dflt. \<exists>v. block_field b k field dflt = Inr v" by blast
  from field obtain lang where lang: "block_field b k (str ''language'') (JStr []) = Inr lang" by blast
  from field obtain checked where checked: "block_field b k (str ''checked'') (JBool False) = Inr checked"
    by blast
  from k(2) consider "k = str ''paragraph''" | "k = str ''heading_1''" | "k = str ''heading_2''"
    | "k = str ''heading_3''" | "k = str ''bulleted_list_item''" | "k = str ''numbered_list_item''"
    | "k = str ''code''" | "k = str ''quote''" | "k = str ''to_do''"
    by (auto simp: rendered_kinds_def)
  then show ?thesis
    using assms(1) k(1) tx lang checked
    by cases (simp_all add: blocks_to_markdown_step_def str_inj)
qed

lemma body_shape_text:
  "body_shape sub \<Longrightarrow>
   \<exists>tx. bind_result (py_get sub (str ''rich_text'') (JList [])) extract_text = Inr tx"
proof (cases sub)
  case (JDict body)
  assume "body_shape sub"
  then show ?thesis
    using extract_text_shape [of "[]"]
    by (cases "map_of body (str ''rich_text'')")
       (auto simp: JDict dict_get_def extract_text_shape split: json.splits)
qed simp_all

lemma body_shape_field: "body_shape sub \<Longrightarrow> \<exists>v. py_get sub field dflt = Inr v"
  by (cases sub) simp_all

lemma empty_body_shape: "body_shape (JDict [])"
  by simp

lemma block_shape_sub:
  assumes "block_shape (JDict d)" "dict_get d (str ''type'') (JStr []) = JStr k" "k \<in> set rendered_kinds"
  shows "body_shape (dict_get d k (JDict []))"
  using assms by (cases "map_of d k") (simp_all add: dict_get_def)

lemma block_shape_step:
  assumes "block_shape b"
  shows "\<exists>lines'. blocks_to_markdown_step fmt lines b = Inr lines'"
proof -
  from assms obtain d where b: "b = JDict d" by (cases b) simp_all
  show ?thesis
  proof (rule step_total)
    show "py_get b (str ''type'') (JStr []) = Inr (dict_get d (str ''type'') (JStr []))"
      by (simp add: b)
  next
    fix k assume k: "dict_get d (str ''type'') (JStr []) = JStr k" "k \<in> set rendered_kinds"
    have sub: "body_shape (dict_get d k (JDict []))"
      using assms k unfolding b by (rule block_shape_sub)
    show "(\<exists>tx. block_text b k = Inr tx) \<and> (\<forall>field dflt. \<exists>v. block_field b k field dflt = Inr v)"
      using body_shape_text [OF sub] body_shape_field [OF sub]
      by (simp add: b block_text_def block_field_def)
  qed
qed

lemma block_shape_loop:
  "list_all block_shape blocks \<Longrightarrow> \<exists>lines'. blocks_to_markdown_loop fmt blocks lines = Inr lines'"
proof (induction blocks arbitrary: lines)
  case Nil
  then show ?case by simp
next
  case (Cons b blocks)
  from Cons.prems obtain lines' where "blocks_to_markdown_step fmt lines b = Inr lines'"
    using block_shape_step [of b fmt lines] by auto
  with Cons show ?case by simp
qed

lemma map_of_setdefault:
  "map_of (setdefault d k v) k' = (if k' = k then Some (dict_get d k v) else map_of d k')"
  by (cases "map_of d k") (auto simp: setdefault_def dict_get_def map_add_def split: option.splits)

lemma dict_get_setdefault:
  "dict_get (setdefault d k v) k' dflt = (if k' = k then dict_get d k v else dict_get d k' dflt)"
  by (simp add: dict_get_def map_of_setdefault)

lemma map_of_update_entry:
  "map_of (update_entry k f d) k' = (if k' = k then map_option f (map_of d k) else map_of d k')"
  by (induction d) (auto simp: update_entry_def)

lemma dict_get_update_entry:
  "dict_get (update_entry k f d) k' dflt =
     (if k' = k then (case map_of d k of None \<Rightarrow> dflt | Some v \<Rightarrow> f v) else dict_get d k' dflt)"
  by (cases "map_of d k") (simp_all add: dict_get_def map_of_update_entry)

lemma run_with_defaults_get:
  "py_get (run_with_defaults t) (str ''plain_text'') (JStr []) = py_get t (str ''plain_text'') (JStr [])"
  by (cases t) (simp_all add: dict_get_setdefault)

lemma plain_texts_with_defaults: "plain_texts (map run_with_defaults ts) = plain_texts ts"
  by (induction ts) (simp_all add: run_with_defaults_get)

lemma extract_text_with_defaults: "extract_text (rich_text_with_defaults v) = extract_text v"
  by (cases v) (simp_all add: extract_text_def plain_texts_with_defaults)

lemma body_with_defaults_text:
  "bind_result (py_get (body_with_defaults sub) (str ''rich_text'') (JList [])) extract_text
   = bind_result (py_get sub (str ''rich_text'') (JList [])) extract_text"
proof (cases sub)
  case (JDict body)
  have "extract_text (case map_of body (str ''rich_text'') of None \<Rightarrow> JList []
            | Some v \<Rightarrow> rich_text_with_defaults v)
        = extract_text (dict_get body (str ''rich_text'') (JList []))"
    by (cases "map_of body (str ''rich_text'')") (simp_all add: dict_get_def extract_text_with_defaults)
  then show ?thesis
    by (simp add: JDict dict_get_setdefault dict_get_update_entry str_inj)
qed simp_all

lemma body_with_defaults_language:
  "py_get (body_with_defaults sub) (str ''language'') (JStr []) = py_get sub (str ''language'') (JStr [])"
  by (cases sub) (simp_all add: dict_get_setdefault dict_get_update_entry str_inj)

lemma body_with_defaults_checked:
  "py_get (body_with_defaults sub) (str ''checked'') (JBool False)
   = py_get sub (str ''checked'') (JBool False)"
  by (cases sub) (simp_all add: dict_get_setdefault dict_get_update_entry str_inj)

lemma rendered_not_type: "k \<in> set rendered_kinds \<Longrightarrow> k \<noteq> str ''type''"
  by (auto simp: rendered_kinds_def str_inj)

lemma block_with_defaults_step:
  "blocks_to_markdown_step fmt lines (block_with_defaults b) = blocks_to_markdown_step fmt lines b"
proof (cases b)
  case (JDict d)
  let ?d' = "setdefault d (str ''type'') (JStr [])"
  have bt: "dict_get ?d' (str ''type'') (JStr []) = dict_get d (str ''type'') (JStr [])"
    by (simp add: dict_get_setdefault)
  have other: "k \<noteq> str ''type'' \<Longrightarrow> dict_get ?d' k x = dict_get d k x" for k x
    by (simp add: dict_get_setdefault)
  show ?thesis
  proof (cases "\<exists>kind. dict_get d (str ''type'') (JStr []) = JStr kind \<and> kind \<in> set rendered_kinds")
    case True
    then obtain kind where kind: "dict_get d (str ''type'') (JStr []) = JStr kind"
      and r: "kind \<in> set rendered_kinds" by blast
    have nt: "kind \<noteq> str ''type''" using r by (rule rendered_not_type)
    let ?e = "update_entry kind body_with_defaults (setdefault ?d' kind (JDict []))"
    have b': "block_with_defaults (JDict d) = JDict ?e"
      using r by (simp add: Let_def bt kind)
    have get: "dict_get ?e k x =
        (if k = kind then body_with_defaults (dict_get d kind (JDict [])) else dict_get ?d' k x)" for k x
      using nt by (simp add: dict_get_update_entry map_of_setdefault dict_get_setdefault)
    have tx: "block_text (JDict ?e) k = block_text (JDict d) k" if "k \<in> set rendered_kinds" for k
      using rendered_not_type [OF that]
      by (simp add: block_text_def get other body_with_defaults_text)
    have fl: "block_field (JDict ?e) k (str ''language'') (JStr [])
            = block_field (JDict d) k (str ''language'') (JStr [])"
      if "k \<in> set rendered_kinds" for k
      using rendered_not_type [OF that]
      by (simp add: block_field_def get other body_with_defaults_language)
    have fc: "block_field (JDict ?e) k (str ''checked'') (JBool False)
            = block_field (JDict d) k (str ''checked'') (JBool False)"
      if "k \<in> set rendered_kinds" for k
      using rendered_not_type [OF that]
      by (simp add: block_field_def get other body_with_defaults_checked)
    show ?thesis
      unfolding JDict b'
    proof (rule step_cong)
      show "py_get (JDict ?e) (str ''type'') (JStr []) = py_get (JDict d) (str ''type'') (JStr [])"
        using nt by (simp add: get bt)
    qed (simp_all add: tx fl fc rendered_kinds_def)
  next
    case False
    then have b': "block_with_defaults (JDict d) = JDict ?d'"
      by (auto simp: Let_def bt split: json.splits)
    show ?thesis
      unfolding JDict b'
    proof (rule step_cong)
      show "py_get (JDict ?d') (str ''type'') (JStr []) = py_get (JDict d) (str ''type'') (JStr [])"
        by (simp add: bt)
      show "block_text (JDict ?d') k = block_text (JDict d) k" if "k \<in> set rendered_kinds" for k
        using rendered_not_type [OF that] by (simp add: block_text_def other)
    qed (simp_all add: block_field_def other str_inj)
  qed
qed simp_all

lemma block_with_defaults_loop:
  "blocks_to_markdown_loop fmt (map block_with_defaults blocks) lines
   = blocks_to_markdown_loop fmt blocks lines"
proof (induction blocks arbitrary: lines)
  case Nil
  then show ?case by simp
next
  case (Cons b blocks)
  then show ?case
    by (cases "blocks_to_markdown_step fmt lines b") (simp_all add: block_with_defaults_step)
qed

section \<open>\<open>blocks_to_markdown\<close>: claims\<close>

text \<open>
  C6. On blocks of the documented shape \<open>blocks_to_markdown\<close> returns a string. A block
  whose type is none of the nine rendered kinds appends no line: the lines are those of
  the blocks around it. Writing into every block the defaults of its missing fields
  (\<open>type\<close>, the sub-object named by the type, \<open>rich_text\<close>, \<open>plain_text\<close>, \<open>language\<close>,
  \<open>checked\<close>) as the empty or false value leaves the result unchanged.
\<close>

theorem blocks_to_markdown_degrades:
  "(list_all block_shape blocks \<longrightarrow> (\<exists>markdown. blocks_to_markdown fmt blocks = Inr markdown))
   \<and> (dict_get d (str ''type'') (JStr []) \<notin> JStr ` set rendered_kinds \<longrightarrow>
        blocks_to_markdown_loop fmt (pre @ JDict d # post) lines
        = blocks_to_markdown_loop fmt (pre @ post) lines)
   \<and> blocks_to_markdown fmt (map block_with_defaults blocks) = blocks_to_markdown fmt blocks"
proof (intro conjI impI)
  assume "list_all block_shape blocks"
  then obtain lines' where "blocks_to_markdown_loop fmt blocks [] = Inr lines'"
    using block_shape_loop by blast
  then show "\<exists>markdown. blocks_to_markdown fmt blocks = Inr markdown"
    by (simp add: blocks_to_markdown_def)
next
  assume u: "dict_get d (str ''type'') (JStr []) \<notin> JStr ` set rendered_kinds"
  show "blocks_to_markdown_loop fmt (pre @ JDict d # post) lines
        = blocks_to_markdown_loop fmt (pre @ post) lines"
    by (cases "blocks_to_markdown_loop fmt pre lines")
       (simp_all add: blocks_to_markdown_loop_append step_unrecognized [OF u])
next
  show "blocks_to_markdown fmt (map block_with_defaults blocks) = blocks_to_markdown fmt blocks"
    by (simp add: blocks_to_markdown_def block_with_defaults_loop)
qed

lemmas b2m_eval = blocks_to_markdown_def blocks_to_markdown_step_def block_text_def block_field_def
  extract_text_def dict_get_def py_format_def str_def

theorem blocks_to_markdown_degrades_witness:
  "(\<exists>markdown. blocks_to_markdown (\<lambda>v. [])
       [JDict [(str ''type'', JStr (str ''to_do'')), (str ''to_do'', JDict [])],
        JDict [(str ''type'', JStr (str ''table''))],
        JDict [],
        JDict [(str ''type'', JStr (str ''code''))],
        JDict [(str ''type'', JStr (str ''paragraph'')),
               (str ''paragraph'', JDict [(str ''rich_text'', JList [JDict []])])]] = Inr markdown)
   \<and> blocks_to_markdown (\<lambda>v. [])
       [JDict [(str ''type'', JStr (str ''to_do'')), (str ''to_do'', JDict [])],
        JDict [(str ''type'', JStr (str ''table''))],
        JDict [],
        JDict [(str ''type'', JStr (str ''code''))],
        JDict [(str ''type'', JStr (str ''paragraph'')),
               (str ''paragraph'', JDict [(str ''rich_text'', JList [JDict []])])]]
     = Inr (str ''- [ ] \<newline>```\<newline>\<newline>```\<newline>'')
   \<and> blocks_to_markdown_loop (\<lambda>v. [])
        ([JDict [(str ''type'', JStr (str ''quote''))]] @ JDict [(str ''type'', JStr (str ''table''))]
           # [JDict [(str ''type'', JStr (str ''code''))]]) []
     = blocks_to_markdown_loop (\<lambda>v. [])
        ([JDict [(str ''type'', JStr (str ''quote''))]] @ [JDict [(str ''type'', JStr (str ''code''))]]) []"
proof -
  let ?bs = "[JDict [(str ''type'', JStr (str ''to_do'')), (str ''to_do'', JDict [])],
        JDict [(str ''type'', JStr (str ''table''))],
        JDict [],
        JDict [(str ''type'', JStr (str ''code''))],
        JDict [(str ''type'', JStr (str ''paragraph'')),
               (str ''paragraph'', JDict [(str ''rich_text'', JList [JDict []])])]]"
  have s: "list_all block_shape ?bs"
    by (simp add: dict_get_def rendered_kinds_def str_def)
  have u: "dict_get [(str ''type'', JStr (str ''table''))] (str ''type'') (JStr []) \<notin> JStr ` set rendered_kinds"
    by (simp add: dict_get_def rendered_kinds_def str_def)
  have "\<exists>markdown. blocks_to_markdown (\<lambda>v. []) ?bs = Inr markdown"
    using blocks_to_markdown_degrades [of ?bs "\<lambda>v. []"] s by blast
  moreover have "blocks_to_markdown (\<lambda>v. []) ?bs = Inr (str ''- [ ] \<newline>```\<newline>\<newline>```\<newline>'')"
    by (simp add: b2m_eval)
  moreover have "blocks_to_markdown_loop (\<lambda>v. [])
        ([JDict [(str ''type'', JStr (str ''quote''))]] @ JDict [(str ''type'', JStr (str ''table''))]
           # [JDict [(str ''type'', JStr (str ''code''))]]) []
     = blocks_to_markdown_loop (\<lambda>v. [])
        ([JDict [(str ''type'', JStr (str ''quote''))]] @ [JDict [(str ''type'', JStr (str ''code''))]]) []"
    using blocks_to_markdown_degrades [of _ _ "[(str ''type'', JStr (str ''table''))]"] u by blast
  ultimately show ?thesis by blast
qed

section \<open>Facts about the round trip\<close>

lemma text_block_inject: "text_block k c = text_block k' c' \<longleftrightarrow> k = k' \<and> c = c'"
  by (auto simp: text_block_def)

lemma exposes_step:
  assumes "exposes rb (text_block k c)" and "k \<in> emitted_kinds"
  shows "blocks_to_markdown_step fmt lines rb = Inr (lines @ [rendered_line (k, c)])"
proof -
  from assms(1) obtain r where rb: "rb = JDict r"
    and ty: "dict_get r (str ''type'') (JStr []) = JStr k"
    and tx: "block_text (JDict r) k = Inr c"
    by (cases rule: exposes.cases) (auto simp: text_block_inject)
  from assms(2) consider "k = str ''heading_1''" | "k = str ''heading_2''" | "k = str ''heading_3''"
    | "k = str ''bulleted_list_item''" | "k = str ''paragraph''"
    by (auto simp: emitted_kinds_def)
  then show ?thesis
    using ty tx
    by cases (simp_all add: rb blocks_to_markdown_step_def rendered_line_def line_prefix_def str_inj)
qed

lemma exposes_loop:
  "list_all2 exposes bs (map (\<lambda>kc. text_block (fst kc) (snd kc)) kcs) \<Longrightarrow>
   \<forall>kc \<in> set kcs. fst kc \<in> emitted_kinds \<Longrightarrow>
   blocks_to_markdown_loop fmt bs lines = Inr (lines @ map rendered_line kcs)"
proof (induction kcs arbitrary: bs lines)
  case Nil
  then show ?case by simp
next
  case (Cons kc kcs)
  from Cons.prems(1) obtain b bs' where bs: "bs = b # bs'"
    and b: "exposes b (text_block (fst kc) (snd kc))"
    and bs': "list_all2 exposes bs' (map (\<lambda>kc. text_block (fst kc) (snd kc)) kcs)"
    by (auto simp: list_all2_Cons2)
  have "blocks_to_markdown_step fmt lines b = Inr (lines @ [rendered_line kc])"
    using exposes_step [OF b, of fmt lines] Cons.prems(2) by simp
  moreover have "blocks_to_markdown_loop fmt bs' (lines @ [rendered_line kc])
       = Inr ((lines @ [rendered_line kc]) @ map rendered_line kcs)"
    using bs' Cons.prems(2) by (intro Cons.IH) simp_all
  ultimately show ?case by (simp add: bs)
qed

lemma classify_spec_rstrip: "classify_spec (rstrip l) = classify_spec l"
  by (simp add: classify_spec_def rstrip_idem)

lemma startswith_drop: "startswith s p \<Longrightarrow> length p = n \<Longrightarrow> p @ drop n s = s"
  by (auto simp: startswith_append)

lemma classify_rendered:
  assumes "classify_spec l = Some (k, c)"
  shows "classify_spec (rendered_line (k, c)) = Some (k, c)"
proof -
  let ?line = "rstrip l"
  have ne: "?line \<noteq> []" using assms by (auto simp: classify_spec_def Let_def split: if_splits)
  from assms consider
      (h3) "startswith ?line (str ''### '')" "k = str ''heading_3''" "c = drop 4 ?line"
    | (h2) "startswith ?line (str ''## '')" "k = str ''heading_2''" "c = drop 3 ?line"
    | (h1) "startswith ?line (str ''# '')" "k = str ''heading_1''" "c = drop 2 ?line"
    | (b1) "startswith ?line (str ''- '')" "k = str ''bulleted_list_item''" "c = drop 2 ?line"
    | (b2) "startswith ?line (str ''* '')" "k = str ''bulleted_list_item''" "c = drop 2 ?line"
    | (p) "k = str ''paragraph''" "c = ?line"
    by (auto simp: classify_spec_def Let_def split: if_splits)
  then show ?thesis
  proof cases
    case h3
    have "rendered_line (k, c) = ?line"
      using startswith_drop [OF h3(1), of 4] h3
      by (simp add: rendered_line_def line_prefix_def str_inj) (simp add: str_def)
    with assms show ?thesis by (simp add: classify_spec_rstrip)
  next
    case h2
    have "rendered_line (k, c) = ?line"
      using startswith_drop [OF h2(1), of 3] h2
      by (simp add: rendered_line_def line_prefix_def str_inj) (simp add: str_def)
    with assms show ?thesis by (simp add: classify_spec_rstrip)
  next
    case h1
    have "rendered_line (k, c) = ?line"
      using startswith_drop [OF h1(1), of 2] h1
      by (simp add: rendered_line_def line_prefix_def str_inj) (simp add: str_def)
    with assms show ?thesis by (simp add: classify_spec_rstrip)
  next
    case b1
    have "rendered_line (k, c) = ?line"
      using startswith_drop [OF b1(1), of 2] b1
      by (simp add: rendered_line_def line_prefix_def str_inj) (simp add: str_def)
    with assms show ?thesis by (simp add: classify_spec_rstrip)
  next
    case b2
    have r: "rendered_line (k, c) = str ''- '' @ c"
      using b2 by (simp add: rendered_line_def line_prefix_def str_inj)
    have c: "c \<noteq> [] \<and> rstrip c = c" using classify_spec_Some [OF assms] by simp
    then have l: "\<not> py_isspace (last c)" using rstrip_last [of c] by simp
    have s: "rstrip (str ''- '' @ c) = str ''- '' @ c"
      using c l by (intro rstrip_fixed) simp_all
    show ?thesis
      unfolding r classify_spec_def s Let_def using b2(2) by (simp add: str_def)
  next
    case p
    then have "rendered_line (k, c) = ?line"
      by (simp add: rendered_line_def line_prefix_def str_inj)
    with assms show ?thesis by (simp add: classify_spec_rstrip)
  qed
qed

lemma rendered_no_newline:
  assumes "classify_spec l = Some (k, c)" "10 \<notin> set l"
  shows "10 \<notin> set (rendered_line (k, c))"
proof -
  have "set c \<subseteq> set l" using classify_spec_Some [OF assms(1)] by simp
  then have "10 \<notin> set c" using assms(2) by blast
  then show ?thesis by (simp add: rendered_line_def line_prefix_def str_def)
qed

lemma blocks_of_classified:
  "concat (map line_blocks_spec ls)
   = map (\<lambda>kc. text_block (fst kc) (snd kc)) (List.map_filter classify_spec ls)"
  by (induction ls) (auto simp: line_blocks_spec_def map_filter_simps split: option.splits)

lemma set_map_filter: "kc \<in> set (List.map_filter f ls) \<longleftrightarrow> (\<exists>l \<in> set ls. f l = Some kc)"
  by (induction ls) (auto simp: map_filter_simps split: option.splits)

lemma classified_rendered:
  assumes "\<forall>kc \<in> set kcs. classify_spec (rendered_line kc) = Some kc"
  shows "List.map_filter classify_spec (map rendered_line kcs) = kcs"
  using assms by (induction kcs) (simp_all add: map_filter_simps)

lemma round_trip_blocks:
  assumes "kcs = List.map_filter classify_spec (py_split doc 10)"
  shows "markdown_to_blocks (py_join [10] (map rendered_line kcs)) = markdown_to_blocks doc"
proof -
  have doc: "markdown_to_blocks doc = map (\<lambda>kc. text_block (fst kc) (snd kc)) kcs"
    by (simp add: markdown_to_blocks_spec blocks_of_classified assms)
  have from_line: "\<exists>l \<in> set (py_split doc 10). classify_spec l = Some kc" if "kc \<in> set kcs" for kc
    using that by (simp add: assms set_map_filter)
  have again: "\<forall>kc \<in> set kcs. classify_spec (rendered_line kc) = Some kc"
  proof
    fix kc assume "kc \<in> set kcs"
    then obtain l where "classify_spec l = Some kc" using from_line by blast
    then show "classify_spec (rendered_line kc) = Some kc"
      using classify_rendered [of l "fst kc" "snd kc"] by simp
  qed
  have nl: "\<forall>r \<in> set (map rendered_line kcs). 10 \<notin> set r"
  proof
    fix r assume "r \<in> set (map rendered_line kcs)"
    then obtain kc where kc: "kc \<in> set kcs" "r = rendered_line kc" by auto
    then obtain l where l: "l \<in> set (py_split doc 10)" "classify_spec l = Some kc"
      using from_line by blast
    have "10 \<notin> set l" using l(1) by (rule split_sep_free)
    then show "10 \<notin> set r"
      using rendered_no_newline [of l "fst kc" "snd kc"] l(2) kc(2) by simp
  qed
  show ?thesis
  proof (cases "kcs = []")
    case True
    have "markdown_to_blocks [] = []"
      by (simp add: markdown_to_blocks_spec py_split_Nil blank_line_blocks rstrip_Nil)
    moreover have "markdown_to_blocks doc = []" using doc True by simp
    ultimately show ?thesis using True by simp
  next
    case False
    then have "py_split (py_join [10] (map rendered_line kcs)) 10 = map rendered_line kcs"
      using nl by (intro split_join) simp_all
    then have "markdown_to_blocks (py_join [10] (map rendered_line kcs))
        = map (\<lambda>kc. text_block (fst kc) (snd kc))
            (List.map_filter classify_spec (map rendered_line kcs))"
      by (simp only: markdown_to_blocks_spec blocks_of_classified)
    then show ?thesis
      by (simp only: doc classified_rendered [OF again])
  qed
qed

section \<open>The round trip: claims\<close>

text \<open>
  C2 (as amended). When the blocks \<open>markdown_to_blocks\<close> emits for \<open>doc\<close> come back from
  the service with the same types and with their text exposed as \<open>plain_text\<close>, rendering
  them gives a text \<open>r1\<close>, and a second round trip of \<open>r1\<close>, again through returned
  blocks, renders \<open>r1\<close> again.
\<close>

theorem round_trip_idempotent_on_returned_blocks:
  assumes "list_all2 exposes bs1 (markdown_to_blocks doc)"
  shows "\<exists>r1. blocks_to_markdown fmt bs1 = Inr r1
           \<and> (\<forall>bs2. list_all2 exposes bs2 (markdown_to_blocks r1) \<longrightarrow>
                 blocks_to_markdown fmt bs2 = Inr r1)"
proof -
  define kcs where "kcs = List.map_filter classify_spec (py_split doc 10)"
  define r1 where "r1 = py_join [10] (map rendered_line kcs)"
  have doc: "markdown_to_blocks doc = map (\<lambda>kc. text_block (fst kc) (snd kc)) kcs"
    by (simp add: markdown_to_blocks_spec blocks_of_classified kcs_def)
  have kinds: "\<forall>kc \<in> set kcs. fst kc \<in> emitted_kinds"
  proof
    fix kc assume "kc \<in> set kcs"
    then obtain l where "classify_spec l = Some (fst kc, snd kc)"
      by (auto simp: kcs_def set_map_filter)
    then show "fst kc \<in> emitted_kinds" using classify_spec_Some by blast
  qed
  have render: "blocks_to_markdown fmt bs = Inr r1"
    if "list_all2 exposes bs (markdown_to_blocks doc)" for bs
    using exposes_loop [of bs kcs fmt "[]"] that kinds
    by (simp add: doc blocks_to_markdown_def r1_def)
  have same: "markdown_to_blocks r1 = markdown_to_blocks doc"
    unfolding r1_def using kcs_def by (rule round_trip_blocks)
  show ?thesis
    using render [OF assms] render by (auto simp: same)
qed

text \<open>
  C2 as stated fails: applied to its own output, \<open>blocks_to_markdown\<close> finds no
  \<open>plain_text\<close> and renders the prefixes only. The document \<open># Title\<close> gives \<open>r1 = "# "\<close>,
  and the round trip of \<open>r1\<close> gives the empty string.
\<close>

theorem round_trip_counterexample:
  "blocks_to_markdown (\<lambda>v. []) (markdown_to_blocks (str ''# Title'')) = Inr (str ''# '')
   \<and> blocks_to_markdown (\<lambda>v. []) (markdown_to_blocks (str ''# '')) = Inr []
   \<and> blocks_to_markdown (\<lambda>v. []) (markdown_to_blocks (str ''# '')) \<noteq> Inr (str ''# '')"
  by (simp add: m2b_eval text_block_def blocks_to_markdown_def blocks_to_markdown_step_def
      block_text_def extract_text_def dict_get_def)

theorem round_trip_idempotent_on_returned_blocks_witness:
  "list_all2 exposes
     [JDict [(str ''type'', JStr (str ''heading_1'')),
             (str ''heading_1'', JDict [(str ''rich_text'',
                JList [JDict [(str ''plain_text'', JStr (str ''Title''))]])])],
      JDict [(str ''type'', JStr (str ''bulleted_list_item'')),
             (str ''bulleted_list_item'', JDict [(str ''rich_text'',
                JList [JDict [(str ''plain_text'', JStr (str ''it''))],
                       JDict [(str ''plain_text'', JStr (str ''em''))]])])]]
     (markdown_to_blocks (str ''# Title\<newline>\<newline>* item''))
   \<and> blocks_to_markdown (\<lambda>v. [])
     [JDict [(str ''type'', JStr (str ''heading_1'')),
             (str ''heading_1'', JDict [(str ''rich_text'',
                JList [JDict [(str ''plain_text'', JStr (str ''Title''))]])])],
      JDict [(str ''type'', JStr (str ''bulleted_list_item'')),
             (str ''bulleted_list_item'', JDict [(str ''rich_text'',
                JList [JDict [(str ''plain_text'', JStr (str ''it''))],
                       JDict [(str ''plain_text'', JStr (str ''em''))]])])]]
     = Inr (str ''# Title\<newline>- item'')
   \<and> list_all2 exposes
     [JDict [(str ''type'', JStr (str ''heading_1'')),
             (str ''heading_1'', JDict [(str ''rich_text'',
                JList [JDict [(str ''plain_text'', JStr (str ''Title''))]])])],
      JDict [(str ''type'', JStr (str ''bulleted_list_item'')),
             (str ''bulleted_list_item'', JDict [(str ''rich_text'',
                JList [JDict [(str ''plain_text'', JStr (str ''item''))]])])]]
     (markdown_to_blocks (str ''# Title\<newline>- item''))
   \<and> blocks_to_markdown (\<lambda>v. [])
     [JDict [(str ''type'', JStr (str ''heading_1'')),
             (str ''heading_1'', JDict [(str ''rich_text'',
                JList [JDict [(str ''plain_text'', JStr (str ''Title''))]])])],
      JDict [(str ''type'', JStr (str ''bulleted_list_item'')),
             (str ''bulleted_list_item'', JDict [(str ''rich_text'',
                JList [JDict [(str ''plain_text'', JStr (str ''item''))]])])]]
     = Inr (str ''# Title\<newline>- item'')"
proof -
  let ?h = "JDict [(str ''type'', JStr (str ''heading_1'')),
             (str ''heading_1'', JDict [(str ''rich_text'',
                JList [JDict [(str ''plain_text'', JStr (str ''Title''))]])])]"
  let ?b1 = "JDict [(str ''type'', JStr (str ''bulleted_list_item'')),
             (str ''bulleted_list_item'', JDict [(str ''rich_text'',
                JList [JDict [(str ''plain_text'', JStr (str ''it''))],
                       JDict [(str ''plain_text'', JStr (str ''em''))]])])]"
  let ?b2 = "JDict [(str ''type'', JStr (str ''bulleted_list_item'')),
             (str ''bulleted_list_item'', JDict [(str ''rich_text'',
                JList [JDict [(str ''plain_text'', JStr (str ''item''))]])])]"
  have h: "exposes ?h (text_block (str ''heading_1'') (str ''Title''))"
    by (rule exposes.intros) (simp_all add: dict_get_def block_text_def extract_text_def str_def)
  have b1: "exposes ?b1 (text_block (str ''bulleted_list_item'') (str ''item''))"
    by (rule exposes.intros) (simp_all add: dict_get_def block_text_def extract_text_def str_def)
  have b2: "exposes ?b2 (text_block (str ''bulleted_list_item'') (str ''item''))"
    by (rule exposes.intros) (simp_all add: dict_get_def block_text_def extract_text_def str_def)
  have m1: "markdown_to_blocks (str ''# Title\<newline>\<newline>* item'')
      = [text_block (str ''heading_1'') (str ''Title''),
         text_block (str ''bulleted_list_item'') (str ''item'')]"
    by (simp add: m2b_eval)
  have m2: "markdown_to_blocks (str ''# Title\<newline>- item'')
      = [text_block (str ''heading_1'') (str ''Title''),
         text_block (str ''bulleted_list_item'') (str ''item'')]"
    by (simp add: m2b_eval)
  have e1: "list_all2 exposes [?h, ?b1] (markdown_to_blocks (str ''# Title\<newline>\<newline>* item''))"
    unfolding m1 using h b1 by simp
  have e2: "list_all2 exposes [?h, ?b2] (markdown_to_blocks (str ''# Title\<newline>- item''))"
    unfolding m2 using h b2 by simp
  have r: "blocks_to_markdown (\<lambda>v. []) [?h, ?b1] = Inr (str ''# Title\<newline>- item'')"
    by (simp add: blocks_to_markdown_def blocks_to_markdown_step_def block_text_def
        extract_text_def dict_get_def str_def)
  from round_trip_idempotent_on_returned_blocks [OF e1, of "\<lambda>v. []"] r
  have "\<forall>bs2. list_all2 exposes bs2 (markdown_to_blocks (str ''# Title\<newline>- item'')) \<longrightarrow>
          blocks_to_markdown (\<lambda>v. []) bs2 = Inr (str ''# Title\<newline>- item'')"
    by auto
  with e2 have "blocks_to_markdown (\<lambda>v. []) [?h, ?b2] = Inr (str ''# Title\<newline>- item'')"
    by blast
  with e1 e2 r show ?thesis by blast
qed

end
